theory Spec2Isabelle
  imports Complex_Main
begin

section \<open>Data model\<close>

text \<open>
  The strategies of \<^verbatim>\<open>strategies.py\<close> scan a pandas data frame indexed by timestamp.
  A frame is modelled as the list of its rows. The index value of a row is its \<open>date\<close>, an
  integer count of seconds, so that \<^verbatim>\<open>Timedelta.days\<close> is a floor division by 86400.
  The price and volume columns read from the CSV file are finite numbers (\<open>real\<close>).
  A float that is computed by an indicator may be NaN: it is a \<open>real option\<close>, with
  \<open>None\<close> for NaN. The indicator columns that the constructors obtain from the
  \<^verbatim>\<open>pandas_ta\<close> library are columns of the row as the constructor leaves them.
  Columns that no strategy reads are left out.
\<close>

record bar =
  date :: int
  high :: real
  low :: real
  close :: real
  volume :: real
  SMA_20 :: "real option"
  SMA_50 :: "real option"
  SMA_200 :: "real option"
  RSI :: "real option"
  ATR :: "real option"
  ATR_MA :: "real option"
  MACD :: "real option"
  MACD_Signal :: "real option"
  MACD_Hist :: "real option"
  Higher_High :: bool
  Lower_Low :: bool
  Volume_Ratio :: "real option"
  ROC_5 :: "real option"
  ROC_20 :: "real option"
  High_20 :: "real option"
  High_30 :: "real option"

type_synonym frame = "bar list"

text \<open>The dataclass \<^verbatim>\<open>TradeSignal\<close>. The stop and the target of strategy A are computed
  from the ATR column, so they are floats that may be NaN.\<close>

record TradeSignal =
  timestamp :: int
  signal_type :: string
  price :: real
  stop_loss :: "real option"
  take_profit :: "real option"
  reason :: string

datatype error = TypeError | ValueError

subsection \<open>Double-precision arithmetic\<close>

text \<open>
  A Python float is an IEEE binary64 number, and every literal, product, sum and difference
  is rounded to the nearest such number, ties to the even significand. \<open>dbl x\<close> is that
  number: the binade of \<open>x\<close> is found by halving or doubling, with exponents from -1022
  (below it the numbers are subnormal, with the spacing of that binade) to 1023, and \<open>x\<close>
  is rounded to a multiple of the spacing of its binade, which is 52 binary places below it.
  Prices and indicators are far below the overflow threshold \<open>2 ^ 1024\<close>, and overflow to
  infinity is not modelled.

  Whether strategy A enters depends on how its products round, so its loop body rounds every
  literal and every arithmetic result as the code does. The properties stated of the bodies
  of strategies B, C and D hold whatever their threshold comparisons return, and their
  products are the exact ones.
\<close>

fun halvings :: "nat \<Rightarrow> real \<Rightarrow> int" where
  "halvings 0 x = 0"
| "halvings (Suc n) x = (if x < 2 then 0 else 1 + halvings n (x / 2))"

fun doublings :: "nat \<Rightarrow> real \<Rightarrow> int" where
  "doublings 0 x = 0"
| "doublings (Suc n) x = (if 1 \<le> x then 0 else doublings n (2 * x) - 1)"

definition binade :: "real \<Rightarrow> int" where
  "binade x = (if 1 \<le> \<bar>x\<bar> then halvings 1023 \<bar>x\<bar> else doublings 1022 \<bar>x\<bar>)"

definition pow2 :: "int \<Rightarrow> real" where
  "pow2 e = (if 0 \<le> e then 2 ^ nat e else 1 / 2 ^ nat (- e))"

definition round_half_even :: "real \<Rightarrow> int" where
  "round_half_even x =
     (let f = \<lfloor>x\<rfloor>; r = x - of_int f
      in if r < 1 / 2 then f else if 1 / 2 < r then f + 1 else if even f then f else f + 1)"

definition dbl :: "real \<Rightarrow> real" where
  "dbl x = (let u = pow2 (binade x - 52) in of_int (round_half_even (x / u)) * u)"

subsection \<open>Float comparisons and arithmetic with NaN\<close>

text \<open>Every comparison with NaN is false; arithmetic on NaN gives NaN, and on numbers the
  rounded result.\<close>

definition flt :: "real option \<Rightarrow> real option \<Rightarrow> bool" where
  "flt a b = (case (a, b) of (Some x, Some y) \<Rightarrow> x < y | _ \<Rightarrow> False)"

definition fgt :: "real option \<Rightarrow> real option \<Rightarrow> bool" where
  "fgt a b = (case (a, b) of (Some x, Some y) \<Rightarrow> x > y | _ \<Rightarrow> False)"

definition fle :: "real option \<Rightarrow> real option \<Rightarrow> bool" where
  "fle a b = (case (a, b) of (Some x, Some y) \<Rightarrow> x \<le> y | _ \<Rightarrow> False)"

definition fge :: "real option \<Rightarrow> real option \<Rightarrow> bool" where
  "fge a b = (case (a, b) of (Some x, Some y) \<Rightarrow> x \<ge> y | _ \<Rightarrow> False)"

definition fmul :: "real option \<Rightarrow> real \<Rightarrow> real option" where
  "fmul a c = map_option (\<lambda>x. dbl (x * c)) a"

definition fadd :: "real \<Rightarrow> real option \<Rightarrow> real option" where
  "fadd c a = map_option (\<lambda>x. dbl (c + x)) a"

definition fsub :: "real \<Rightarrow> real option \<Rightarrow> real option" where
  "fsub c a = map_option (\<lambda>x. dbl (c - x)) a"

text \<open>\<^verbatim>\<open>(current_date - entry_date).days\<close>: whole days of a difference of timestamps,
  rounded towards minus infinity.\<close>

definition days :: "int \<Rightarrow> int" where
  "days delta = delta div 86400"

section \<open>The scan of \<^verbatim>\<open>generate_signals\<close>\<close>

text \<open>The local variables of the loop. \<open>entry_date\<close> is \<^verbatim>\<open>None\<close> until a position is
  opened; subtracting \<^verbatim>\<open>None\<close> from a timestamp raises \<^verbatim>\<open>TypeError\<close>.\<close>

record scan_state =
  signals :: "TradeSignal list"
  position_open :: bool
  entry_price :: real
  entry_date :: "int option"

definition init_state :: scan_state where
  "init_state = \<lparr>signals = [], position_open = False, entry_price = 0, entry_date = None\<rparr>"

text \<open>A \<^verbatim>\<open>for\<close> loop over a list of indices whose body may raise.\<close>

fun for_range :: "(nat \<Rightarrow> 's \<Rightarrow> error + 's) \<Rightarrow> nat list \<Rightarrow> 's \<Rightarrow> error + 's" where
  "for_range body [] st = Inr st"
| "for_range body (i # is) st =
     (case body i st of Inl e \<Rightarrow> Inl e | Inr st' \<Rightarrow> for_range body is st')"

subsection \<open>Strategy A: \<^verbatim>\<open>ACCStrategy\<close>\<close>

definition ACC_body :: "frame \<Rightarrow> nat \<Rightarrow> scan_state \<Rightarrow> error + scan_state" where
  "ACC_body data i st =
    (let row = data ! i;
         current_price = close row;
         current_date = date row
     in
     if position_open st then
       (case entry_date st of
          None \<Rightarrow> Inl TypeError
        | Some ed \<Rightarrow>
            (let volatility_exit = fgt (ATR row) (fmul (ATR_MA row) (dbl 1.3));
                 trend_exit = flt (Some current_price) (SMA_20 row);
                 momentum_exit = (flt (MACD row) (MACD_Signal row) \<and>
                                  flt (MACD_Hist row) (Some 0));
                 rsi_exit = fgt (RSI row) (Some 70);
                 exit_conditions =
                   [volatility_exit, trend_exit, momentum_exit, rsi_exit,
                    current_price \<le> dbl (entry_price st * dbl 0.98),
                    current_price \<ge> dbl (entry_price st * dbl 1.04),
                    days (current_date - ed) \<ge> 8]
             in
             if list_ex id exit_conditions
             then Inr (st\<lparr>position_open := False, entry_price := 0, entry_date := None\<rparr>)
             else Inr st))
     else
       (let volatility_ok = (flt (ATR row) (fmul (ATR_MA row) (dbl 1.1)) \<and>
                             fgt (ATR row) (fmul (ATR_MA row) (dbl 0.7)));
            trend_ok = (fgt (Some current_price) (SMA_20 row) \<and>
                        fgt (SMA_20 row) (SMA_50 row) \<and>
                        fgt (SMA_50 row) (SMA_200 row));
            momentum_ok = (fgt (RSI row) (Some 45) \<and>
                           flt (RSI row) (Some 65) \<and>
                           fgt (MACD row) (MACD_Signal row) \<and>
                           fgt (MACD_Hist row) (Some 0) \<and>
                           fgt (ROC_5 row) (Some 0) \<and>
                           fgt (ROC_20 row) (Some 0));
            volume_ok = fgt (Volume_Ratio row) (Some (dbl 1.3));
            pattern_ok = (Higher_High row \<and> \<not> Lower_Low row \<and>
                          fgt (Some current_price) (fmul (SMA_20 row) (dbl 1.01)));
            entry_conditions = [volatility_ok, trend_ok, momentum_ok, volume_ok, pattern_ok]
        in
        if list_all id entry_conditions then
          (let atr = ATR row;
               stop = fsub current_price (fmul atr (dbl 1.2));
               target = fadd current_price (fmul atr 2.0)
           in Inr (st\<lparr>signals := signals st @
                        [\<lparr>timestamp = current_date, signal_type = ''LONG'',
                          price = current_price, stop_loss = stop, take_profit = target,
                          reason = ''Strong trend with momentum and volume confirmation''\<rparr>],
                      position_open := True,
                      entry_price := current_price,
                      entry_date := Some current_date\<rparr>))
        else Inr st))"

definition ACCStrategy_generate_signals :: "frame \<Rightarrow> error + TradeSignal list" where
  "ACCStrategy_generate_signals data =
     map_sum id signals (for_range (ACC_body data) [200..<length data] init_state)"

subsection \<open>Strategy B: \<^verbatim>\<open>AdaniEnterprisesStrategy\<close>\<close>

text \<open>\<^verbatim>\<open>rolling(window=n).max()\<close> of a column without NaN: NaN on the first \<open>n - 1\<close>
  rows, afterwards the maximum of the last \<open>n\<close> values up to and including the row.\<close>

definition rolling_max :: "nat \<Rightarrow> real list \<Rightarrow> nat \<Rightarrow> real option" where
  "rolling_max n xs i =
     (if i + 1 < n then None else Some (Max (set (take n (drop (i + 1 - n) xs)))))"

definition AdaniEnterprisesStrategy_init :: "frame \<Rightarrow> frame" where
  "AdaniEnterprisesStrategy_init data =
     map (\<lambda>i. (data ! i)\<lparr>High_20 := rolling_max 20 (map high data) i\<rparr>) [0..<length data]"

definition AdaniEnterprises_body :: "frame \<Rightarrow> nat \<Rightarrow> scan_state \<Rightarrow> error + scan_state" where
  "AdaniEnterprises_body data i st =
    (let current_price = close (data ! i);
         current_date = date (data ! i)
     in
     if position_open st then
       (case entry_date st of
          None \<Rightarrow> Inl TypeError
        | Some ed \<Rightarrow>
            (let exit_conditions =
                   [days (current_date - ed) \<ge> 10,
                    current_price \<le> entry_price st * 0.97]
             in
             if list_ex id exit_conditions
             then Inr (st\<lparr>position_open := False, entry_price := 0, entry_date := None\<rparr>)
             else Inr st))
     else
       (if fgt (Some current_price) (High_20 (data ! (i - 1))) then
          Inr (st\<lparr>signals := signals st @
                    [\<lparr>timestamp = current_date, signal_type = ''LONG'',
                      price = current_price,
                      stop_loss = Some (current_price * 0.97),
                      take_profit = Some (current_price * 1.12),
                      reason = ''20-day high breakout''\<rparr>],
                  position_open := True,
                  entry_price := current_price,
                  entry_date := Some current_date\<rparr>)
        else Inr st))"

definition AdaniEnterprisesStrategy_generate_signals :: "frame \<Rightarrow> error + TradeSignal list" where
  "AdaniEnterprisesStrategy_generate_signals data =
     map_sum id signals (for_range (AdaniEnterprises_body data) [20..<length data] init_state)"

subsection \<open>Strategy C: \<^verbatim>\<open>AdaniPowerStrategy\<close>\<close>

definition AdaniPower_body :: "frame \<Rightarrow> nat \<Rightarrow> scan_state \<Rightarrow> error + scan_state" where
  "AdaniPower_body data i st =
    (let current_price = close (data ! i);
         current_date = date (data ! i);
         golden_cross = (fle (SMA_50 (data ! (i - 1))) (SMA_200 (data ! (i - 1))) \<and>
                         fgt (SMA_50 (data ! i)) (SMA_200 (data ! i)));
         death_cross = (fge (SMA_50 (data ! (i - 1))) (SMA_200 (data ! (i - 1))) \<and>
                        flt (SMA_50 (data ! i)) (SMA_200 (data ! i)))
     in
     if position_open st \<and> death_cross
     then Inr (st\<lparr>position_open := False, entry_price := 0, entry_date := None\<rparr>)
     else if \<not> position_open st \<and> golden_cross then
       Inr (st\<lparr>signals := signals st @
                 [\<lparr>timestamp = current_date, signal_type = ''LONG'',
                   price = current_price,
                   stop_loss = Some (current_price * 0.94),
                   take_profit = Some (current_price * 1.12),
                   reason = ''50/200 SMA golden cross''\<rparr>],
               position_open := True,
               entry_price := current_price,
               entry_date := Some current_date\<rparr>)
     else Inr st)"

definition AdaniPowerStrategy_generate_signals :: "frame \<Rightarrow> error + TradeSignal list" where
  "AdaniPowerStrategy_generate_signals data =
     map_sum id signals (for_range (AdaniPower_body data) [200..<length data] init_state)"

subsection \<open>Strategy D: \<^verbatim>\<open>AdaniPortsStrategy\<close>\<close>

definition AdaniPortsStrategy_init :: "frame \<Rightarrow> frame" where
  "AdaniPortsStrategy_init data =
     map (\<lambda>i. (data ! i)\<lparr>High_30 := rolling_max 30 (map high data) i\<rparr>) [0..<length data]"

definition AdaniPorts_body :: "frame \<Rightarrow> nat \<Rightarrow> scan_state \<Rightarrow> error + scan_state" where
  "AdaniPorts_body data i st =
    (let current_price = close (data ! i);
         current_date = date (data ! i)
     in
     if position_open st then
       (case entry_date st of
          None \<Rightarrow> Inl TypeError
        | Some ed \<Rightarrow>
            (let exit_conditions =
                   [days (current_date - ed) \<ge> 10,
                    current_price \<le> entry_price st * 0.95]
             in
             if list_ex id exit_conditions
             then Inr (st\<lparr>position_open := False, entry_price := 0, entry_date := None\<rparr>)
             else Inr st))
     else
       (if fgt (Some current_price) (High_30 (data ! (i - 1))) then
          Inr (st\<lparr>signals := signals st @
                    [\<lparr>timestamp = current_date, signal_type = ''LONG'',
                      price = current_price,
                      stop_loss = Some (current_price * 0.95),
                      take_profit = Some (current_price * 1.12),
                      reason = ''30-day high breakout''\<rparr>],
                  position_open := True,
                  entry_price := current_price,
                  entry_date := Some current_date\<rparr>)
        else Inr st))"

definition AdaniPortsStrategy_generate_signals :: "frame \<Rightarrow> error + TradeSignal list" where
  "AdaniPortsStrategy_generate_signals data =
     map_sum id signals (for_range (AdaniPorts_body data) [30..<length data] init_state)"

subsection \<open>The four classes as one family\<close>

datatype strategy =
  ACCStrategy | AdaniEnterprisesStrategy | AdaniPowerStrategy | AdaniPortsStrategy

fun warmup :: "strategy \<Rightarrow> nat" where
  "warmup ACCStrategy = 200"
| "warmup AdaniEnterprisesStrategy = 20"
| "warmup AdaniPowerStrategy = 200"
| "warmup AdaniPortsStrategy = 30"

fun scan_body :: "strategy \<Rightarrow> frame \<Rightarrow> nat \<Rightarrow> scan_state \<Rightarrow> error + scan_state" where
  "scan_body ACCStrategy = ACC_body"
| "scan_body AdaniEnterprisesStrategy = AdaniEnterprises_body"
| "scan_body AdaniPowerStrategy = AdaniPower_body"
| "scan_body AdaniPortsStrategy = AdaniPorts_body"

text \<open>The state of the loop of class \<open>s\<close> when it reaches bar \<open>n\<close>, that is after the
  bars \<open>warmup s, ..., n - 1\<close>.\<close>

definition scan_upto :: "strategy \<Rightarrow> frame \<Rightarrow> nat \<Rightarrow> error + scan_state" where
  "scan_upto s data n = for_range (scan_body s data) [warmup s..<n] init_state"

text \<open>The transitions of the position state at bar \<open>i\<close>, read off the states of the loop
  before and after the bar.\<close>

definition entry_fires :: "strategy \<Rightarrow> frame \<Rightarrow> nat \<Rightarrow> bool" where
  "entry_fires s data i =
     (case (scan_upto s data i, scan_upto s data (Suc i)) of
        (Inr a, Inr b) \<Rightarrow> \<not> position_open a \<and> position_open b
      | _ \<Rightarrow> False)"

definition exit_fires :: "strategy \<Rightarrow> frame \<Rightarrow> nat \<Rightarrow> bool" where
  "exit_fires s data i =
     (case (scan_upto s data i, scan_upto s data (Suc i)) of
        (Inr a, Inr b) \<Rightarrow> position_open a \<and> \<not> position_open b
      | _ \<Rightarrow> False)"

text \<open>The signals appended while the loop handles bar \<open>i\<close>.\<close>

definition emitted_at :: "strategy \<Rightarrow> frame \<Rightarrow> nat \<Rightarrow> TradeSignal list" where
  "emitted_at s data i =
     (case (scan_upto s data i, scan_upto s data (Suc i)) of
        (Inr a, Inr b) \<Rightarrow> drop (length (signals a)) (signals b)
      | _ \<Rightarrow> [])"

section \<open>Strategy objects\<close>

text \<open>An instance of a strategy class: its class, \<^verbatim>\<open>self.data\<close> as the constructor left
  it and \<^verbatim>\<open>self.signals\<close>. A method returns its result and the object after the call.\<close>

record strategy_obj =
  cls :: strategy
  self_data :: frame
  self_signals :: "TradeSignal list"

definition generate_signals :: "strategy_obj \<Rightarrow> error + (TradeSignal list \<times> strategy_obj)" where
  "generate_signals self =
     (case (case cls self of
              ACCStrategy \<Rightarrow> ACCStrategy_generate_signals (self_data self)
            | AdaniEnterprisesStrategy \<Rightarrow> AdaniEnterprisesStrategy_generate_signals (self_data self)
            | AdaniPowerStrategy \<Rightarrow> AdaniPowerStrategy_generate_signals (self_data self)
            | AdaniPortsStrategy \<Rightarrow> AdaniPortsStrategy_generate_signals (self_data self))
      of Inl e \<Rightarrow> Inl e
       | Inr sigs \<Rightarrow> Inr (sigs, self\<lparr>self_signals := sigs\<rparr>))"

subsection \<open>\<^verbatim>\<open>BaseStrategy.calculate_returns\<close>\<close>

text \<open>A pandas series is the list of its (index, value) pairs. A quotient by zero is not a
  finite number: \<open>None\<close>.\<close>

definition fdiv :: "real \<Rightarrow> real \<Rightarrow> real option" where
  "fdiv x y = (if y = 0 then None else Some (x / y))"

record returns_state =
  returns :: "(int \<times> real option) list"
  position :: int
  r_entry_price :: real
  entry_index :: "int option"

definition returns_body ::
  "frame \<Rightarrow> TradeSignal list \<Rightarrow> nat \<Rightarrow> returns_state \<Rightarrow> error + returns_state" where
  "returns_body data sigs i st0 =
    (let signal = sigs ! i;
         st = (if signal_type signal = ''LONG''
               then st0\<lparr>position := 1, r_entry_price := price signal,
                        entry_index := Some (timestamp signal)\<rparr>
               else st0)
     in
     if position st = 1 then
       (case entry_index st of
          None \<Rightarrow> Inl TypeError
        | Some ei \<Rightarrow>
            (let next_signal_idx = (if i + 1 < length sigs then i + 1 else length sigs);
                 mask = (if next_signal_idx < length sigs
                         then map (\<lambda>b. date b > ei \<and>
                                        date b \<le> timestamp (sigs ! next_signal_idx)) data
                         else map (\<lambda>b. date b > ei) data)
             in
             if list_ex id mask then
               Inr (st\<lparr>returns :=
                         map (\<lambda>(tv, m, b).
                                if m then (fst tv, fdiv (close b - r_entry_price st) (r_entry_price st))
                                else tv)
                             (zip (returns st) (zip mask data)),
                       position := 0\<rparr>)
             else Inr st))
     else Inr st)"

definition calculate_returns ::
  "strategy_obj \<Rightarrow> error + ((int \<times> real option) list \<times> strategy_obj)" where
  "calculate_returns self =
     (case for_range (returns_body (self_data self) (self_signals self))
             [0..<length (self_signals self)]
             \<lparr>returns = map (\<lambda>b. (date b, Some 0)) (self_data self),
              position = 0, r_entry_price = 0, entry_index = None\<rparr>
      of Inl e \<Rightarrow> Inl e
       | Inr st \<Rightarrow> Inr (returns st, self))"

subsection \<open>The constructors\<close>

text \<open>
  \<^verbatim>\<open>BaseStrategy.__init__\<close> stores the frame and an empty signal list. The constructors of
  strategies B and D then add the rolling high. Those of strategies A and C fill their
  columns with the \<^verbatim>\<open>pandas_ta\<close> library, which is not part of the repository. On a frame
  with fewer rows than its length an indicator of that library returns no series, and the
  assignment of what it returns to a column raises \<^verbatim>\<open>ValueError\<close>. The assignments are
  made in the order of the source, the simple moving averages first; the other indicators
  of strategy A need fewer rows than the 200-bar average. The columns that the library
  computes on a frame that is long enough are the parameter \<open>ta\<close>.
\<close>

definition ACCStrategy_new :: "(frame \<Rightarrow> frame) \<Rightarrow> frame \<Rightarrow> error + strategy_obj" where
  "ACCStrategy_new ta data =
     (if length data < 20 then Inl ValueError
      else if length data < 50 then Inl ValueError
      else if length data < 200 then Inl ValueError
      else Inr \<lparr>cls = ACCStrategy, self_data = ta data, self_signals = []\<rparr>)"

definition AdaniEnterprisesStrategy_new :: "frame \<Rightarrow> error + strategy_obj" where
  "AdaniEnterprisesStrategy_new data =
     Inr \<lparr>cls = AdaniEnterprisesStrategy, self_data = AdaniEnterprisesStrategy_init data,
          self_signals = []\<rparr>"

definition AdaniPowerStrategy_new :: "(frame \<Rightarrow> frame) \<Rightarrow> frame \<Rightarrow> error + strategy_obj" where
  "AdaniPowerStrategy_new ta data =
     (if length data < 50 then Inl ValueError
      else if length data < 200 then Inl ValueError
      else Inr \<lparr>cls = AdaniPowerStrategy, self_data = ta data, self_signals = []\<rparr>)"

definition AdaniPortsStrategy_new :: "frame \<Rightarrow> error + strategy_obj" where
  "AdaniPortsStrategy_new data =
     Inr \<lparr>cls = AdaniPortsStrategy, self_data = AdaniPortsStrategy_init data,
          self_signals = []\<rparr>"

section \<open>Reading a run\<close>

text \<open>The loop never reads \<open>entry_date\<close> of a state that violates this invariant.\<close>

definition wf_state :: "scan_state \<Rightarrow> bool" where
  "wf_state st = (position_open st \<longrightarrow> entry_date st \<noteq> None)"

text \<open>Whether a position is open when the loop reaches bar \<open>n\<close>, and the bars at which a
  signal is appended.\<close>

definition open_at :: "strategy \<Rightarrow> frame \<Rightarrow> nat \<Rightarrow> bool" where
  "open_at s data n = (case scan_upto s data n of Inr st \<Rightarrow> position_open st | Inl e \<Rightarrow> False)"

definition signal_bars :: "strategy \<Rightarrow> frame \<Rightarrow> nat list" where
  "signal_bars s data = filter (\<lambda>i. emitted_at s data i \<noteq> []) [warmup s..<length data]"

text \<open>The loop of \<open>calculate_returns\<close> compares with \<open>entry_index\<close> only in states that
  satisfy this invariant.\<close>

definition wf_returns :: "returns_state \<Rightarrow> bool" where
  "wf_returns st = (position st = 1 \<longrightarrow> entry_index st \<noteq> None)"

text \<open>The coverage range of the signal at position \<open>k\<close> of the list: the timestamps strictly
  after the signal up to and including the next signal, or up to the end for the last one.
  The simple return of a bar against the price of a signal.\<close>

definition covers :: "TradeSignal list \<Rightarrow> nat \<Rightarrow> int \<Rightarrow> bool" where
  "covers sigs k t =
     (timestamp (sigs ! k) < t \<and> (Suc k < length sigs \<longrightarrow> t \<le> timestamp (sigs ! Suc k)))"

definition position_return :: "TradeSignal \<Rightarrow> bar \<Rightarrow> real option" where
  "position_return sig b = fdiv (close b - price sig) (price sig)"

text \<open>The value that the loop of \<open>calculate_returns\<close> holds for bar \<open>j\<close> after the first
  \<open>n\<close> signals, all of type LONG: the last range that covers the bar wins.\<close>

primrec written :: "frame \<Rightarrow> TradeSignal list \<Rightarrow> nat \<Rightarrow> nat \<Rightarrow> real option" where
  "written data sigs 0 j = Some 0"
| "written data sigs (Suc n) j =
     (if covers sigs n (date (data ! j)) then position_return (sigs ! n) (data ! j)
      else written data sigs n j)"

text \<open>Two states of the loop that differ at most in the stop and target values recorded on
  the signals emitted so far, and two outcomes of the loop that agree up to these values.\<close>

definition forget_stops :: "TradeSignal \<Rightarrow> TradeSignal" where
  "forget_stops sig = sig\<lparr>stop_loss := None, take_profit := None\<rparr>"

definition same_but_stops :: "scan_state \<Rightarrow> scan_state \<Rightarrow> bool" where
  "same_but_stops st st' =
     (position_open st = position_open st' \<and> entry_price st = entry_price st' \<and>
      entry_date st = entry_date st' \<and>
      map forget_stops (signals st) = map forget_stops (signals st'))"

definition same_outcome :: "error + scan_state \<Rightarrow> error + scan_state \<Rightarrow> bool" where
  "same_outcome r r' =
     (case (r, r') of
        (Inr st, Inr st') \<Rightarrow> same_but_stops st st'
      | (Inl e, Inl e') \<Rightarrow> e = e'
      | _ \<Rightarrow> False)"

text \<open>The entry conditions of strategy A other than the volatility check; ATR within the
  closed interval from 0.7 to 1.1 times ATR_MA; and ATR strictly between the two products as
  the loop computes them.\<close>

definition ACC_other_entry_conditions :: "bar \<Rightarrow> bool" where
  "ACC_other_entry_conditions row =
     (let current_price = close row;
          trend_ok = (fgt (Some current_price) (SMA_20 row) \<and>
                      fgt (SMA_20 row) (SMA_50 row) \<and>
                      fgt (SMA_50 row) (SMA_200 row));
          momentum_ok = (fgt (RSI row) (Some 45) \<and>
                         flt (RSI row) (Some 65) \<and>
                         fgt (MACD row) (MACD_Signal row) \<and>
                         fgt (MACD_Hist row) (Some 0) \<and>
                         fgt (ROC_5 row) (Some 0) \<and>
                         fgt (ROC_20 row) (Some 0));
          volume_ok = fgt (Volume_Ratio row) (Some (dbl 1.3));
          pattern_ok = (Higher_High row \<and> \<not> Lower_Low row \<and>
                        fgt (Some current_price) (fmul (SMA_20 row) (dbl 1.01)))
      in trend_ok \<and> momentum_ok \<and> volume_ok \<and> pattern_ok)"

definition ATR_in_closed_band :: "bar \<Rightarrow> bool" where
  "ATR_in_closed_band row =
     (case (ATR row, ATR_MA row) of
        (Some a, Some m) \<Rightarrow> 0.7 * m \<le> a \<and> a \<le> 1.1 * m
      | _ \<Rightarrow> False)"

definition ATR_between_products :: "bar \<Rightarrow> bool" where
  "ATR_between_products row =
     (case (ATR row, ATR_MA row) of
        (Some a, Some m) \<Rightarrow> dbl (m * dbl 0.7) < a \<and> a < dbl (m * dbl 1.1)
      | _ \<Rightarrow> False)"

section \<open>Example frames\<close>

text \<open>A row with every price at zero and every indicator undefined.\<close>

definition bar0 :: bar where
  "bar0 = \<lparr>date = 0, high = 0, low = 0, close = 0, volume = 0,
      SMA_20 = None, SMA_50 = None, SMA_200 = None, RSI = None, ATR = None, ATR_MA = None,
      MACD = None, MACD_Signal = None, MACD_Hist = None, Higher_High = False, Lower_Low = False,
      Volume_Ratio = None, ROC_5 = None, ROC_20 = None, High_20 = None, High_30 = None\<rparr>"

text \<open>Twenty-six daily bars for strategy B: the close breaks above the 20-bar high at
  bars 21 and 23 and falls by more than three per cent at bars 22 and 24.\<close>

definition breakout_closes :: "real list" where
  "breakout_closes = replicate 21 9 @ [11, 9, 12, 9, 9.5]"

definition breakout_frame :: frame where
  "breakout_frame =
     map (\<lambda>i. bar0\<lparr>date := int i * 86400, high := max 10 (breakout_closes ! i), low := 8,
                    close := breakout_closes ! i\<rparr>) [0..<26]"

definition breakout_data :: frame where
  "breakout_data = AdaniEnterprisesStrategy_init breakout_frame"

definition breakout_obj :: strategy_obj where
  "breakout_obj = \<lparr>cls = AdaniEnterprisesStrategy, self_data = breakout_data, self_signals = []\<rparr>"




text \<open>Two hundred and one daily bars for strategy A. Every entry condition other than the
  volatility check holds at each bar; ATR and ATR_MA are the two parameters.\<close>

definition acc_frame :: "real \<Rightarrow> real \<Rightarrow> frame" where
  "acc_frame atr atr_ma =
     map (\<lambda>i. bar0\<lparr>date := int i * 86400, high := 111, low := 99, close := 110,
                    volume := 1000, SMA_20 := Some 100, SMA_50 := Some 90, SMA_200 := Some 80,
                    RSI := Some 50, ATR := Some atr, ATR_MA := Some atr_ma, MACD := Some 2,
                    MACD_Signal := Some 1, MACD_Hist := Some 1, Higher_High := True,
                    Lower_Low := False, Volume_Ratio := Some 2, ROC_5 := Some 1,
                    ROC_20 := Some 1\<rparr>) [0..<201]"

text \<open>A flat series of \<open>n\<close> daily bars.\<close>

definition short_frame :: "nat \<Rightarrow> frame" where
  "short_frame n = map (\<lambda>i. bar0\<lparr>date := int i * 86400, high := 10, low := 8, close := 9\<rparr>) [0..<n]"

text \<open>The state of strategy B on the breakout frame after bar 21, and the same state with
  the stop above and the target below every price of the frame.\<close>

definition open_state :: scan_state where
  "open_state =
     \<lparr>signals = [\<lparr>timestamp = 1814400, signal_type = ''LONG'', price = 11,
                   stop_loss = Some 10.67, take_profit = Some 12.32,
                   reason = ''20-day high breakout''\<rparr>],
      position_open = True, entry_price = 11, entry_date = Some 1814400\<rparr>"

definition tampered_state :: scan_state where
  "tampered_state =
     \<lparr>signals = [\<lparr>timestamp = 1814400, signal_type = ''LONG'', price = 11,
                   stop_loss = Some 1000, take_profit = Some 0,
                   reason = ''20-day high breakout''\<rparr>],
      position_open = True, entry_price = 11, entry_date = Some 1814400\<rparr>"

section \<open>Properties of the scan\<close>

lemma for_range_append:
  "for_range body (xs @ ys) st =
     (case for_range body xs st of Inl e \<Rightarrow> Inl e | Inr st' \<Rightarrow> for_range body ys st')"
  by (induction xs arbitrary: st) (auto split: sum.splits)

lemma scan_body_cases:
  "(position_open st \<and> entry_date st = None \<and> scan_body s data i st = Inl TypeError)
   \<or> scan_body s data i st = Inr st
   \<or> (position_open st \<and>
      scan_body s data i st =
        Inr (st\<lparr>position_open := False, entry_price := 0, entry_date := None\<rparr>))
   \<or> (\<not> position_open st \<and>
      (\<exists>sl tp rs. scan_body s data i st =
        Inr (st\<lparr>signals := signals st @
                  [\<lparr>timestamp = date (data ! i), signal_type = ''LONG'',
                    price = close (data ! i), stop_loss = sl, take_profit = tp,
                    reason = rs\<rparr>],
                position_open := True,
                entry_price := close (data ! i),
                entry_date := Some (date (data ! i))\<rparr>)))"
  by (cases s)
     (auto simp add: ACC_body_def AdaniEnterprises_body_def AdaniPower_body_def
        AdaniPorts_body_def Let_def split: option.split)

lemma scan_body_ok:
  assumes "wf_state st"
  shows "\<exists>st'. scan_body s data i st = Inr st' \<and> wf_state st'"
  using assms scan_body_cases [of st s data i]
  by (auto simp: wf_state_def)

lemma scan_upto_Suc:
  assumes "warmup s \<le> n"
  shows "scan_upto s data (Suc n) =
          (case scan_upto s data n of Inl e \<Rightarrow> Inl e | Inr st \<Rightarrow> scan_body s data n st)"
proof -
  have "[warmup s..<Suc n] = [warmup s..<n] @ [n]"
    using assms by simp
  then show ?thesis
    by (simp add: scan_upto_def for_range_append split: sum.splits)
qed

lemma scan_upto_warmup:
  "n \<le> warmup s \<Longrightarrow> scan_upto s data n = Inr init_state"
  by (simp add: scan_upto_def)

lemma scan_upto_ok: "\<exists>st. scan_upto s data n = Inr st \<and> wf_state st"
proof (induction n)
  case 0
  show ?case by (simp add: scan_upto_warmup wf_state_def init_state_def)
next
  case (Suc n)
  show ?case
  proof (cases "warmup s \<le> n")
    case True
    from Suc obtain st where st: "scan_upto s data n = Inr st" "wf_state st" by blast
    from scan_body_ok [OF st(2)] obtain st' where
      "scan_body s data n st = Inr st'" "wf_state st'" by blast
    with st True show ?thesis by (simp add: scan_upto_Suc)
  next
    case False
    then have "Suc n \<le> warmup s" by simp
    then show ?thesis by (simp add: scan_upto_warmup wf_state_def init_state_def)
  qed
qed

text \<open>One bar of the loop, seen from the states before and after it.\<close>

lemma scan_step:
  assumes "warmup s \<le> i"
  obtains a b where "scan_upto s data i = Inr a" "scan_upto s data (Suc i) = Inr b"
    "wf_state a" "wf_state b" "scan_body s data i a = Inr b"
proof -
  obtain a where a: "scan_upto s data i = Inr a" "wf_state a" using scan_upto_ok by blast
  obtain b where b: "scan_upto s data (Suc i) = Inr b" "wf_state b" using scan_upto_ok by blast
  have "scan_body s data i a = Inr b" using a b assms by (simp add: scan_upto_Suc)
  with a b that show thesis by blast
qed

lemma scan_step_flat:
  assumes "scan_body s data i a = Inr b" "\<not> position_open a"
  shows "(b = a) \<or>
     (position_open b \<and> entry_price b = close (data ! i) \<and> entry_date b = Some (date (data ! i)) \<and>
      (\<exists>sig. signals b = signals a @ [sig] \<and> timestamp sig = date (data ! i) \<and>
             signal_type sig = ''LONG'' \<and> price sig = close (data ! i)))"
  using assms scan_body_cases [of a s data i] by auto

lemma scan_step_open:
  assumes "scan_body s data i a = Inr b" "position_open a"
  shows "signals b = signals a \<and> (position_open b \<longrightarrow> b = a)"
  using assms scan_body_cases [of a s data i] by auto

lemma generate_signals_scan:
  "generate_signals self =
     (case scan_upto (cls self) (self_data self) (length (self_data self)) of
        Inl e \<Rightarrow> Inl e
      | Inr st \<Rightarrow> Inr (signals st, self\<lparr>self_signals := signals st\<rparr>))"
  by (cases "cls self")
     (simp_all add: generate_signals_def scan_upto_def ACCStrategy_generate_signals_def
        AdaniEnterprisesStrategy_generate_signals_def AdaniPowerStrategy_generate_signals_def
        AdaniPortsStrategy_generate_signals_def split: sum.splits)

lemma entry_fires_iff:
  "scan_upto s data i = Inr a \<Longrightarrow> scan_upto s data (Suc i) = Inr b \<Longrightarrow>
   entry_fires s data i = (\<not> position_open a \<and> position_open b)"
  by (simp add: entry_fires_def)

lemma exit_fires_iff:
  "scan_upto s data i = Inr a \<Longrightarrow> scan_upto s data (Suc i) = Inr b \<Longrightarrow>
   exit_fires s data i = (position_open a \<and> \<not> position_open b)"
  by (simp add: exit_fires_def)

lemma emitted_at_eq:
  "scan_upto s data i = Inr a \<Longrightarrow> scan_upto s data (Suc i) = Inr b \<Longrightarrow>
   emitted_at s data i = drop (length (signals a)) (signals b)"
  by (simp add: emitted_at_def)

lemma before_warmup:
  assumes "i < warmup s"
  shows "emitted_at s data i = []" "\<not> entry_fires s data i" "\<not> exit_fires s data i"
  using assms
  by (simp_all add: emitted_at_def entry_fires_def exit_fires_def scan_upto_warmup init_state_def)

text \<open>What one bar does to the signal list.\<close>

lemma bar_effect:
  assumes "warmup s \<le> i" "scan_upto s data i = Inr a" "scan_upto s data (Suc i) = Inr b"
  shows "(entry_fires s data i \<and>
            (\<exists>sig. signals b = signals a @ [sig] \<and> emitted_at s data i = [sig] \<and>
               timestamp sig = date (data ! i) \<and> signal_type sig = ''LONG'' \<and>
               price sig = close (data ! i)))
         \<or> (\<not> entry_fires s data i \<and> signals b = signals a \<and> emitted_at s data i = [])"
proof -
  have body: "scan_body s data i a = Inr b"
    using assms by (simp add: scan_upto_Suc)
  show ?thesis
  proof (cases "position_open a")
    case True
    with scan_step_open [OF body] show ?thesis
      using assms by (simp add: entry_fires_iff emitted_at_eq)
  next
    case False
    with scan_step_flat [OF body] show ?thesis
      using assms by (auto simp: entry_fires_iff emitted_at_eq)
  qed
qed

lemma emitted_iff_entry: "(emitted_at s data i \<noteq> []) = entry_fires s data i"
proof (cases "warmup s \<le> i")
  case True
  then obtain a b where "scan_upto s data i = Inr a" "scan_upto s data (Suc i) = Inr b"
    by (rule scan_step)
  from bar_effect [OF True this] show ?thesis by auto
next
  case False
  then show ?thesis by (simp add: before_warmup)
qed

lemma exit_emits_nothing:
  assumes "exit_fires s data i"
  shows "emitted_at s data i = []"
proof -
  obtain a b where ab: "scan_upto s data i = Inr a" "scan_upto s data (Suc i) = Inr b"
    using scan_upto_ok by blast
  with assms have "position_open a" by (simp add: exit_fires_iff)
  then have "\<not> entry_fires s data i" using ab by (simp add: entry_fires_iff)
  then show ?thesis using emitted_iff_entry by blast
qed

lemma signals_upto:
  assumes "scan_upto s data n = Inr st"
  shows "signals st = concat (map (emitted_at s data) [warmup s..<n])"
  using assms
proof (induction n arbitrary: st)
  case 0
  then show ?case by (auto simp add: scan_upto_warmup init_state_def)
next
  case (Suc n)
  show ?case
  proof (cases "warmup s \<le> n")
    case True
    obtain a where a: "scan_upto s data n = Inr a" using scan_upto_ok by blast
    from bar_effect [OF True a Suc.prems] Suc.IH [OF a] True
    show ?thesis by auto
  next
    case False
    then have "Suc n \<le> warmup s" by simp
    with Suc.prems show ?thesis
      by (auto simp add: scan_upto_warmup init_state_def)
  qed
qed

lemma all_long:
  assumes "scan_upto s data n = Inr st" "sig \<in> set (signals st)"
  shows "signal_type sig = ''LONG''"
proof -
  from assms signals_upto [OF assms(1)] obtain i where
    i: "warmup s \<le> i" "sig \<in> set (emitted_at s data i)" by auto
  obtain a b where ab: "scan_upto s data i = Inr a" "scan_upto s data (Suc i) = Inr b"
    using scan_upto_ok by blast
  from bar_effect [OF i(1) ab] i(2) show ?thesis by auto
qed

lemma drop_point:
  fixes P :: "nat \<Rightarrow> bool"
  assumes "P a" "\<not> P b" "a \<le> b"
  shows "\<exists>k. a \<le> k \<and> k < b \<and> P k \<and> \<not> P (Suc k)"
  using assms
proof (induction b)
  case 0
  then show ?case by simp
next
  case (Suc b)
  show ?case
  proof (cases "P b")
    case True
    moreover from Suc.prems True have "a \<le> b" by (metis le_SucE)
    ultimately show ?thesis using Suc.prems by auto
  next
    case False
    with Suc.prems have "a \<le> b" by (metis le_SucE)
    from Suc.IH [OF Suc.prems(1) False this] show ?thesis by (auto intro: less_SucI)
  qed
qed

lemma entry_fires_open: "entry_fires s data i = (\<not> open_at s data i \<and> open_at s data (Suc i))"
  using scan_upto_ok [of s data i] scan_upto_ok [of s data "Suc i"]
  by (auto simp: open_at_def entry_fires_def)

lemma exit_fires_open: "exit_fires s data i = (open_at s data i \<and> \<not> open_at s data (Suc i))"
  using scan_upto_ok [of s data i] scan_upto_ok [of s data "Suc i"]
  by (auto simp: open_at_def exit_fires_def)

lemma exit_between_entries:
  assumes "entry_fires s data i" "entry_fires s data j" "i < j"
  shows "\<exists>k. i < k \<and> k < j \<and> exit_fires s data k"
proof -
  have "open_at s data (Suc i)" "\<not> open_at s data j"
    using assms by (simp_all add: entry_fires_open)
  moreover have "Suc i \<le> j" using assms by simp
  ultimately obtain k where "Suc i \<le> k" "k < j" "open_at s data k" "\<not> open_at s data (Suc k)"
    using drop_point [of "open_at s data" "Suc i" j] by blast
  then have "i < k \<and> k < j \<and> exit_fires s data k" by (simp add: exit_fires_open)
  then show ?thesis by blast
qed

lemma entry_between_exits:
  assumes "exit_fires s data i" "exit_fires s data j" "i < j"
  shows "\<exists>k. i < k \<and> k < j \<and> entry_fires s data k"
proof -
  have "\<not> open_at s data (Suc i)" "open_at s data j"
    using assms by (simp_all add: exit_fires_open)
  moreover have "Suc i \<le> j" using assms by simp
  ultimately obtain k where "Suc i \<le> k" "k < j" "\<not> open_at s data k" "\<not> \<not> open_at s data (Suc k)"
    using drop_point [of "\<lambda>n. \<not> open_at s data n" "Suc i" j] by blast
  then have "i < k \<and> k < j \<and> entry_fires s data k" by (simp add: entry_fires_open)
  then show ?thesis by blast
qed

lemma filter_upt_gap:
  fixes P :: "nat \<Rightarrow> bool"
  assumes "\<And>i. P i \<Longrightarrow> \<not> P (Suc i)" "Suc k < length (filter P [a..<b])"
  shows "filter P [a..<b] ! k + 2 \<le> filter P [a..<b] ! Suc k"
proof -
  let ?xs = "filter P [a..<b]"
  have "sorted_wrt (<) ?xs" by (simp add: sorted_wrt_filter)
  then have lt: "?xs ! k < ?xs ! Suc k"
    using assms(2) by (simp add: sorted_wrt_nth_less)
  have "?xs ! k \<in> set ?xs" "?xs ! Suc k \<in> set ?xs"
    using assms(2) by (simp_all del: set_filter)
  then have "P (?xs ! k)" "P (?xs ! Suc k)" by simp_all
  with assms(1) have "?xs ! Suc k \<noteq> Suc (?xs ! k)" by metis
  with lt show ?thesis by simp
qed

lemma signal_dates_upto:
  assumes "scan_upto s data n = Inr st"
  shows "map timestamp (signals st) =
           map (\<lambda>i. date (data ! i)) (filter (\<lambda>i. emitted_at s data i \<noteq> []) [warmup s..<n])
         \<and> map price (signals st) =
           map (\<lambda>i. close (data ! i)) (filter (\<lambda>i. emitted_at s data i \<noteq> []) [warmup s..<n])"
  using assms
proof (induction n arbitrary: st)
  case 0
  then show ?case by (auto simp add: scan_upto_warmup init_state_def)
next
  case (Suc n)
  show ?case
  proof (cases "warmup s \<le> n")
    case True
    obtain a where a: "scan_upto s data n = Inr a" using scan_upto_ok by blast
    from bar_effect [OF True a Suc.prems] Suc.IH [OF a] True
    show ?thesis by auto
  next
    case False
    then have "Suc n \<le> warmup s" by simp
    with Suc.prems show ?thesis
      by (auto simp add: scan_upto_warmup init_state_def)
  qed
qed

section \<open>Claims about the signal list\<close>

text \<open>C9: for every strategy and every bar series, \<open>generate_signals\<close> returns, and every
  signal it returns has type \<open>LONG\<close>; a signal of type \<open>SHORT\<close> is never produced.\<close>

theorem C9_every_signal_is_long:
  "\<exists>sigs self'. generate_signals self = Inr (sigs, self') \<and>
     (\<forall>sig \<in> set sigs. signal_type sig = ''LONG'' \<and> signal_type sig \<noteq> ''SHORT'')"
proof -
  obtain st where st: "scan_upto (cls self) (self_data self) (length (self_data self)) = Inr st"
    using scan_upto_ok by blast
  then have "generate_signals self = Inr (signals st, self\<lparr>self_signals := signals st\<rparr>)"
    by (simp add: generate_signals_scan)
  moreover have "\<forall>sig \<in> set (signals st). signal_type sig = ''LONG'' \<and> signal_type sig \<noteq> ''SHORT''"
    using all_long [OF st] by simp
  ultimately show ?thesis by blast
qed

theorem C9_witness:
  "map_sum id (\<lambda>r. map signal_type (fst r)) (generate_signals breakout_obj) = Inr [''LONG'', ''LONG'']"
proof -
  have n: "map_sum id (\<lambda>r. length (fst r)) (generate_signals breakout_obj) = Inr 2"
    by code_simp
  from C9_every_signal_is_long [of breakout_obj] obtain sigs self' where
    g: "generate_signals breakout_obj = Inr (sigs, self')" and
    l: "\<forall>sig \<in> set sigs. signal_type sig = ''LONG''" by blast
  from n g have "length sigs = 2" by simp
  then obtain x y where "sigs = [x, y]"
    by (metis (no_types, opaque_lifting) length_0_conv length_Suc_conv numeral_2_eq_2)
  with l g show ?thesis by simp
qed

text \<open>C2: for every strategy and every bar series the position state alternates between flat
  and open. A signal is appended at a bar only when no position is open when the loop reaches
  the bar, and the bar opens one; between two bars at which an entry fires there is a bar at
  which an exit fires, and between two exits there is an entry.\<close>

theorem C2_position_state_alternates:
  "(emitted_at s data i \<noteq> [] \<longrightarrow> \<not> open_at s data i \<and> open_at s data (Suc i)) \<and>
   (i < j \<and> emitted_at s data i \<noteq> [] \<and> emitted_at s data j \<noteq> [] \<longrightarrow>
      (\<exists>k. i < k \<and> k < j \<and> exit_fires s data k)) \<and>
   (i < j \<and> exit_fires s data i \<and> exit_fires s data j \<longrightarrow>
      (\<exists>k. i < k \<and> k < j \<and> emitted_at s data k \<noteq> []))"
proof (intro conjI impI)
  assume "emitted_at s data i \<noteq> []"
  then have "entry_fires s data i" by (simp add: emitted_iff_entry)
  then show "\<not> open_at s data i" "open_at s data (Suc i)"
    by (simp_all add: entry_fires_open)
next
  assume "i < j \<and> emitted_at s data i \<noteq> [] \<and> emitted_at s data j \<noteq> []"
  then have "entry_fires s data i" "entry_fires s data j" "i < j"
    by (simp_all add: emitted_iff_entry)
  then show "\<exists>k. i < k \<and> k < j \<and> exit_fires s data k"
    by (rule exit_between_entries)
next
  assume "i < j \<and> exit_fires s data i \<and> exit_fires s data j"
  then have "exit_fires s data i" "exit_fires s data j" "i < j" by simp_all
  then have "\<exists>k. i < k \<and> k < j \<and> entry_fires s data k"
    by (rule entry_between_exits)
  then show "\<exists>k. i < k \<and> k < j \<and> emitted_at s data k \<noteq> []"
    by (simp add: emitted_iff_entry)
qed

theorem C2_witness:
  "emitted_at AdaniEnterprisesStrategy breakout_data 21 \<noteq> [] \<and>
   emitted_at AdaniEnterprisesStrategy breakout_data 23 \<noteq> [] \<and>
   exit_fires AdaniEnterprisesStrategy breakout_data 22 \<and>
   exit_fires AdaniEnterprisesStrategy breakout_data 24 \<and>
   \<not> open_at AdaniEnterprisesStrategy breakout_data 21 \<and>
   open_at AdaniEnterprisesStrategy breakout_data 22 \<and>
   (\<exists>k. 21 < k \<and> k < 23 \<and> exit_fires AdaniEnterprisesStrategy breakout_data k) \<and>
   (\<exists>k. 22 < k \<and> k < 24 \<and> emitted_at AdaniEnterprisesStrategy breakout_data k \<noteq> [])"
proof -
  have e: "emitted_at AdaniEnterprisesStrategy breakout_data 21 \<noteq> []"
    "emitted_at AdaniEnterprisesStrategy breakout_data 23 \<noteq> []"
    by code_simp+
  have x: "exit_fires AdaniEnterprisesStrategy breakout_data 22"
    "exit_fires AdaniEnterprisesStrategy breakout_data 24"
    by code_simp+
  show ?thesis
    using e x C2_position_state_alternates [of AdaniEnterprisesStrategy breakout_data 21 23]
      C2_position_state_alternates [of AdaniEnterprisesStrategy breakout_data 22 24]
    by simp
qed

lemma entry_then_no_entry:
  assumes "emitted_at s data i \<noteq> []"
  shows "emitted_at s data (Suc i) = []"
proof -
  from assms have "open_at s data (Suc i)"
    by (simp add: emitted_iff_entry entry_fires_open)
  then have "\<not> entry_fires s data (Suc i)" by (simp add: entry_fires_open)
  then show ?thesis using emitted_iff_entry by blast
qed

lemma generate_signals_result:
  "\<exists>st. scan_upto (cls self) (self_data self) (length (self_data self)) = Inr st \<and>
        generate_signals self = Inr (signals st, self\<lparr>self_signals := signals st\<rparr>)"
proof -
  obtain st where st: "scan_upto (cls self) (self_data self) (length (self_data self)) = Inr st"
    using scan_upto_ok by blast
  then show ?thesis by (simp add: generate_signals_scan)
qed

text \<open>C10: a bar at which an exit fires appends no signal, the bar after an entry appends no
  signal, and so the bars of any two consecutive signals of the returned list, whose
  timestamps and prices are those of these bars, are at least two indices apart.\<close>

theorem C10_no_entry_on_exit_bar:
  "(exit_fires (cls self) (self_data self) i \<longrightarrow> emitted_at (cls self) (self_data self) i = []) \<and>
   (emitted_at (cls self) (self_data self) i \<noteq> [] \<longrightarrow>
      emitted_at (cls self) (self_data self) (Suc i) = []) \<and>
   (\<exists>sigs self'. generate_signals self = Inr (sigs, self') \<and>
      map timestamp sigs =
        map (\<lambda>i. date (self_data self ! i)) (signal_bars (cls self) (self_data self)) \<and>
      map price sigs =
        map (\<lambda>i. close (self_data self ! i)) (signal_bars (cls self) (self_data self)) \<and>
      (\<forall>k. Suc k < length (signal_bars (cls self) (self_data self)) \<longrightarrow>
         signal_bars (cls self) (self_data self) ! k + 2
           \<le> signal_bars (cls self) (self_data self) ! Suc k))"
proof (intro conjI impI)
  assume "exit_fires (cls self) (self_data self) i"
  then show "emitted_at (cls self) (self_data self) i = []" by (rule exit_emits_nothing)
next
  assume "emitted_at (cls self) (self_data self) i \<noteq> []"
  then show "emitted_at (cls self) (self_data self) (Suc i) = []" by (rule entry_then_no_entry)
next
  let ?s = "cls self" and ?d = "self_data self"
  obtain st where st: "scan_upto ?s ?d (length ?d) = Inr st"
    "generate_signals self = Inr (signals st, self\<lparr>self_signals := signals st\<rparr>)"
    using generate_signals_result by blast
  have gap: "\<forall>k. Suc k < length (signal_bars ?s ?d) \<longrightarrow>
      signal_bars ?s ?d ! k + 2 \<le> signal_bars ?s ?d ! Suc k"
    unfolding signal_bars_def
    using filter_upt_gap [of "\<lambda>i. emitted_at ?s ?d i \<noteq> []"] entry_then_no_entry [of ?s ?d]
    by blast
  from signal_dates_upto [OF st(1)] st(2) gap
  show "\<exists>sigs self'. generate_signals self = Inr (sigs, self') \<and>
      map timestamp sigs = map (\<lambda>i. date (?d ! i)) (signal_bars ?s ?d) \<and>
      map price sigs = map (\<lambda>i. close (?d ! i)) (signal_bars ?s ?d) \<and>
      (\<forall>k. Suc k < length (signal_bars ?s ?d) \<longrightarrow>
         signal_bars ?s ?d ! k + 2 \<le> signal_bars ?s ?d ! Suc k)"
    by (simp add: signal_bars_def)
qed

theorem C10_witness:
  "exit_fires AdaniEnterprisesStrategy breakout_data 22 \<and>
   emitted_at AdaniEnterprisesStrategy breakout_data 22 = [] \<and>
   emitted_at AdaniEnterprisesStrategy breakout_data 21 \<noteq> [] \<and>
   signal_bars AdaniEnterprisesStrategy breakout_data = [21, 23] \<and>
   map_sum id (\<lambda>r. map timestamp (fst r)) (generate_signals breakout_obj)
     = Inr [21 * 86400, 23 * 86400]"
proof -
  have x: "exit_fires AdaniEnterprisesStrategy breakout_data 22" by code_simp
  have e: "emitted_at AdaniEnterprisesStrategy breakout_data 21 \<noteq> []" by code_simp
  have b: "signal_bars AdaniEnterprisesStrategy breakout_data = [21, 23]" by code_simp
  have d: "map (\<lambda>i. date (breakout_data ! i)) [21, 23] = [21 * 86400, 23 * 86400]" by code_simp
  have o: "cls breakout_obj = AdaniEnterprisesStrategy" "self_data breakout_obj = breakout_data"
    by (simp_all add: breakout_obj_def)
  from C10_no_entry_on_exit_bar [of breakout_obj 22] C10_no_entry_on_exit_bar [of breakout_obj 21]
  show ?thesis
    using x e b d unfolding o by auto
qed

lemma short_series_no_signals:
  assumes "length (self_data self) \<le> warmup (cls self)"
  shows "\<exists>self'. generate_signals self = Inr ([], self') \<and>
           calculate_returns self' =
             Inr (map (\<lambda>b. (date b, Some 0)) (self_data self), self')"
proof -
  have "scan_upto (cls self) (self_data self) (length (self_data self)) = Inr init_state"
    using assms by (rule scan_upto_warmup)
  then have g: "generate_signals self = Inr ([], self\<lparr>self_signals := []\<rparr>)"
    by (simp add: generate_signals_scan init_state_def)
  have "calculate_returns (self\<lparr>self_signals := []\<rparr>) =
          Inr (map (\<lambda>b. (date b, Some 0)) (self_data self), self\<lparr>self_signals := []\<rparr>)"
    by (simp add: calculate_returns_def)
  with g show ?thesis by blast
qed

lemma init_dates:
  "map date (AdaniEnterprisesStrategy_init data) = map date data"
  "map date (AdaniPortsStrategy_init data) = map date data"
  by (rule nth_equalityI, simp add: AdaniEnterprisesStrategy_init_def,
      simp add: AdaniEnterprisesStrategy_init_def)
     (rule nth_equalityI, simp add: AdaniPortsStrategy_init_def,
      simp add: AdaniPortsStrategy_init_def)

lemma zero_series_cong:
  assumes "map date xs = map date ys"
  shows "map (\<lambda>b. (date b, Some (0::real))) xs = map (\<lambda>b. (date b, Some 0)) ys"
proof -
  have "map (\<lambda>b. (date b, Some (0::real))) xs = map (\<lambda>t. (t, Some 0)) (map date xs)"
    by (simp add: comp_def)
  also have "\<dots> = map (\<lambda>t. (t, Some 0)) (map date ys)" using assms by simp
  also have "\<dots> = map (\<lambda>b. (date b, Some 0)) ys" by (simp add: comp_def)
  finally show ?thesis .
qed

text \<open>C3: a bar series shorter than the warm-up window. For strategies B and D (at most 20
  and 30 bars) the constructor builds the object, \<open>generate_signals\<close> returns the empty
  list without raising and \<open>calculate_returns\<close> then returns zero at every index of the
  series; so it is for strategies A and C on a series of exactly 200 bars. On every series
  shorter than 200 bars the constructors of strategies A and C raise \<open>ValueError\<close>, so that
  the too-short input is fatal before \<open>generate_signals\<close> can run.\<close>

theorem C3_short_series:
  "(length data < 200 \<longrightarrow>
      ACCStrategy_new ta data = Inl ValueError \<and>
      AdaniPowerStrategy_new ta data = Inl ValueError) \<and>
   (length data < 21 \<longrightarrow>
      (\<exists>self self'. AdaniEnterprisesStrategy_new data = Inr self \<and>
         generate_signals self = Inr ([], self') \<and>
         calculate_returns self' = Inr (map (\<lambda>b. (date b, Some 0)) data, self'))) \<and>
   (length data < 31 \<longrightarrow>
      (\<exists>self self'. AdaniPortsStrategy_new data = Inr self \<and>
         generate_signals self = Inr ([], self') \<and>
         calculate_returns self' = Inr (map (\<lambda>b. (date b, Some 0)) data, self'))) \<and>
   (length data = 200 \<and> length (ta data) = 200 \<longrightarrow>
      (\<exists>self self'. ACCStrategy_new ta data = Inr self \<and>
         generate_signals self = Inr ([], self') \<and>
         calculate_returns self' = Inr (map (\<lambda>b. (date b, Some 0)) (ta data), self')) \<and>
      (\<exists>self self'. AdaniPowerStrategy_new ta data = Inr self \<and>
         generate_signals self = Inr ([], self') \<and>
         calculate_returns self' = Inr (map (\<lambda>b. (date b, Some 0)) (ta data), self')))"
proof (intro conjI impI)
  assume "length data < 200"
  then show "ACCStrategy_new ta data = Inl ValueError"
    "AdaniPowerStrategy_new ta data = Inl ValueError"
    by (simp_all add: ACCStrategy_new_def AdaniPowerStrategy_new_def)
next
  assume l: "length data < 21"
  let ?self = "\<lparr>cls = AdaniEnterprisesStrategy,
      self_data = AdaniEnterprisesStrategy_init data, self_signals = []\<rparr>"
  have "length (self_data ?self) \<le> warmup (cls ?self)"
    using l by (simp add: AdaniEnterprisesStrategy_init_def)
  from short_series_no_signals [OF this] obtain self' where
    "generate_signals ?self = Inr ([], self')"
    "calculate_returns self' =
       Inr (map (\<lambda>b. (date b, Some 0)) (AdaniEnterprisesStrategy_init data), self')"
    by auto
  moreover have "map (\<lambda>b. (date b, Some (0::real))) (AdaniEnterprisesStrategy_init data) =
      map (\<lambda>b. (date b, Some 0)) data"
    by (rule zero_series_cong) (rule init_dates)
  ultimately show "\<exists>self self'. AdaniEnterprisesStrategy_new data = Inr self \<and>
         generate_signals self = Inr ([], self') \<and>
         calculate_returns self' = Inr (map (\<lambda>b. (date b, Some 0)) data, self')"
    by (simp add: AdaniEnterprisesStrategy_new_def)
next
  assume l: "length data < 31"
  let ?self = "\<lparr>cls = AdaniPortsStrategy,
      self_data = AdaniPortsStrategy_init data, self_signals = []\<rparr>"
  have "length (self_data ?self) \<le> warmup (cls ?self)"
    using l by (simp add: AdaniPortsStrategy_init_def)
  from short_series_no_signals [OF this] obtain self' where
    "generate_signals ?self = Inr ([], self')"
    "calculate_returns self' =
       Inr (map (\<lambda>b. (date b, Some 0)) (AdaniPortsStrategy_init data), self')"
    by auto
  moreover have "map (\<lambda>b. (date b, Some (0::real))) (AdaniPortsStrategy_init data) =
      map (\<lambda>b. (date b, Some 0)) data"
    by (rule zero_series_cong) (rule init_dates)
  ultimately show "\<exists>self self'. AdaniPortsStrategy_new data = Inr self \<and>
         generate_signals self = Inr ([], self') \<and>
         calculate_returns self' = Inr (map (\<lambda>b. (date b, Some 0)) data, self')"
    by (simp add: AdaniPortsStrategy_new_def)
next
  assume l: "length data = 200 \<and> length (ta data) = 200"
  let ?self = "\<lparr>cls = ACCStrategy, self_data = ta data, self_signals = []\<rparr>"
  have "length (self_data ?self) \<le> warmup (cls ?self)" using l by simp
  from short_series_no_signals [OF this] l
  show "\<exists>self self'. ACCStrategy_new ta data = Inr self \<and>
         generate_signals self = Inr ([], self') \<and>
         calculate_returns self' = Inr (map (\<lambda>b. (date b, Some 0)) (ta data), self')"
    by (simp add: ACCStrategy_new_def)
next
  assume l: "length data = 200 \<and> length (ta data) = 200"
  let ?self = "\<lparr>cls = AdaniPowerStrategy, self_data = ta data, self_signals = []\<rparr>"
  have "length (self_data ?self) \<le> warmup (cls ?self)" using l by simp
  from short_series_no_signals [OF this] l
  show "\<exists>self self'. AdaniPowerStrategy_new ta data = Inr self \<and>
         generate_signals self = Inr ([], self') \<and>
         calculate_returns self' = Inr (map (\<lambda>b. (date b, Some 0)) (ta data), self')"
    by (simp add: AdaniPowerStrategy_new_def)
qed

theorem C3_witness:
  "length breakout_frame = 26 \<and>
   ACCStrategy_new id breakout_frame = Inl ValueError \<and>
   AdaniPowerStrategy_new id breakout_frame = Inl ValueError \<and>
   length (short_frame 20) = 20 \<and>
   (\<exists>self self'. AdaniEnterprisesStrategy_new (short_frame 20) = Inr self \<and>
      generate_signals self = Inr ([], self') \<and>
      calculate_returns self' = Inr (map (\<lambda>b. (date b, Some 0)) (short_frame 20), self')) \<and>
   length (short_frame 30) = 30 \<and>
   (\<exists>self self'. AdaniPortsStrategy_new (short_frame 30) = Inr self \<and>
      generate_signals self = Inr ([], self') \<and>
      calculate_returns self' = Inr (map (\<lambda>b. (date b, Some 0)) (short_frame 30), self')) \<and>
   length (short_frame 200) = 200 \<and>
   (\<exists>self self'. ACCStrategy_new id (short_frame 200) = Inr self \<and>
      generate_signals self = Inr ([], self') \<and>
      calculate_returns self' = Inr (map (\<lambda>b. (date b, Some 0)) (short_frame 200), self'))"
proof -
  have l: "length breakout_frame = 26" "length (short_frame 20) = 20"
    "length (short_frame 30) = 30" "length (short_frame 200) = 200"
    by (simp_all add: breakout_frame_def short_frame_def)
  from C3_short_series [of breakout_frame id] C3_short_series [of "short_frame 20" id]
    C3_short_series [of "short_frame 30" id] C3_short_series [of "short_frame 200" id] l
  show ?thesis by simp
qed






lemma scan_body_same:
  assumes "same_but_stops st st'"
  shows "same_outcome (scan_body s data i st) (scan_body s data i st')"
  using assms
  by (cases s)
     (auto simp: same_outcome_def same_but_stops_def ACC_body_def AdaniEnterprises_body_def
        AdaniPower_body_def AdaniPorts_body_def Let_def forget_stops_def
        split: option.splits)

text \<open>C4: the loop of every strategy never reads the stop and target values recorded on the
  signals. From two states that differ at most in these values, over any list of bars, the
  loop raises in both runs or in neither and ends in states that again differ at most in
  these values: the position state, the entry price and date, and the timestamps, types,
  prices and reasons of all signals agree. As the list of bars is arbitrary, this holds after
  every bar of the scan.\<close>

theorem C4_stops_are_never_consulted:
  assumes "same_but_stops st st'"
  shows "same_outcome (for_range (scan_body s data) is st) (for_range (scan_body s data) is st')"
  using assms
proof (induction "is" arbitrary: st st')
  case Nil
  then show ?case by (simp add: same_outcome_def)
next
  case (Cons i "is")
  have b: "same_outcome (scan_body s data i st) (scan_body s data i st')"
    by (rule scan_body_same [OF Cons.prems])
  show ?case
  proof (cases "scan_body s data i st")
    case (Inl e)
    with b have "scan_body s data i st' = Inl e"
      by (auto simp: same_outcome_def split: sum.splits)
    with Inl show ?thesis by (simp add: same_outcome_def)
  next
    case (Inr st1)
    with b obtain st1' where "scan_body s data i st' = Inr st1'" "same_but_stops st1 st1'"
      by (auto simp: same_outcome_def split: sum.splits)
    with Inr Cons.IH [of st1 st1'] show ?thesis by simp
  qed
qed

theorem C4_witness:
  "scan_upto AdaniEnterprisesStrategy breakout_data 22 = Inr open_state \<and>
   same_but_stops open_state tampered_state \<and>
   same_outcome
     (for_range (scan_body AdaniEnterprisesStrategy breakout_data) [22..<26] open_state)
     (for_range (scan_body AdaniEnterprisesStrategy breakout_data) [22..<26] tampered_state) \<and>
   map_sum id (map timestamp \<circ> signals)
     (for_range (scan_body AdaniEnterprisesStrategy breakout_data) [22..<26] tampered_state)
     = Inr [21 * 86400, 23 * 86400]"
proof -
  have a: "scan_upto AdaniEnterprisesStrategy breakout_data 22 = Inr open_state"
    by code_simp
  have b: "same_but_stops open_state tampered_state"
    by (simp add: same_but_stops_def open_state_def tampered_state_def forget_stops_def)
  have c: "map_sum id (map timestamp \<circ> signals)
     (for_range (scan_body AdaniEnterprisesStrategy breakout_data) [22..<26] tampered_state)
     = Inr [21 * 86400, 23 * 86400]"
    by code_simp
  from C4_stops_are_never_consulted [OF b, of AdaniEnterprisesStrategy breakout_data "[22..<26]"]
    a b c
  show ?thesis by blast
qed

lemma returns_body_ok:
  assumes "wf_returns st"
  shows "\<exists>st'. returns_body data sigs i st = Inr st' \<and> wf_returns st'"
  using assms
  by (auto simp: returns_body_def wf_returns_def Let_def split: option.splits)

lemma returns_loop_ok:
  assumes "wf_returns st"
  shows "\<exists>st'. for_range (returns_body data sigs) is st = Inr st' \<and> wf_returns st'"
  using assms
proof (induction "is" arbitrary: st)
  case Nil
  then show ?case by simp
next
  case (Cons i "is")
  from returns_body_ok [OF Cons.prems] obtain st1 where
    "returns_body data sigs i st = Inr st1" "wf_returns st1" by blast
  with Cons.IH [of st1] show ?case by simp
qed

lemma calculate_returns_total: "\<exists>rs. calculate_returns self = Inr (rs, self)"
proof -
  have "wf_returns \<lparr>returns = map (\<lambda>b. (date b, Some 0)) (self_data self),
              position = 0, r_entry_price = 0, entry_index = None\<rparr>"
    by (simp add: wf_returns_def)
  from returns_loop_ok [OF this] obtain st' where
    "for_range (returns_body (self_data self) (self_signals self))
       [0..<length (self_signals self)]
       \<lparr>returns = map (\<lambda>b. (date b, Some 0)) (self_data self),
        position = 0, r_entry_price = 0, entry_index = None\<rparr> = Inr st'"
    by blast
  then show ?thesis by (simp add: calculate_returns_def)
qed

text \<open>C8: \<open>generate_signals\<close> returns a list and leaves an object on which a second call
  returns the same list and leaves the same object; the class and the data of the object are
  unchanged. \<open>calculate_returns\<close> returns a series and leaves the object as it was, so that
  a second call returns the same series. Neither call raises.\<close>

theorem C8_calls_are_idempotent:
  "\<exists>sigs self1 rs.
     generate_signals self = Inr (sigs, self1) \<and>
     generate_signals self1 = Inr (sigs, self1) \<and>
     cls self1 = cls self \<and> self_data self1 = self_data self \<and>
     calculate_returns self1 = Inr (rs, self1) \<and>
     (\<exists>rs0. calculate_returns self = Inr (rs0, self))"
proof -
  obtain st where st: "scan_upto (cls self) (self_data self) (length (self_data self)) = Inr st"
    "generate_signals self = Inr (signals st, self\<lparr>self_signals := signals st\<rparr>)"
    using generate_signals_result by blast
  let ?self1 = "self\<lparr>self_signals := signals st\<rparr>"
  have "generate_signals ?self1 = Inr (signals st, ?self1)"
    using st(1) by (simp add: generate_signals_scan)
  moreover obtain rs where "calculate_returns ?self1 = Inr (rs, ?self1)"
    using calculate_returns_total by blast
  moreover obtain rs0 where "calculate_returns self = Inr (rs0, self)"
    using calculate_returns_total by blast
  ultimately show ?thesis using st(2) by auto
qed

theorem C8_witness:
  "\<exists>sigs self1 rs.
     generate_signals breakout_obj = Inr (sigs, self1) \<and>
     generate_signals self1 = Inr (sigs, self1) \<and>
     calculate_returns self1 = Inr (rs, self1) \<and>
     length sigs = 2"
proof -
  have n: "map_sum id (\<lambda>r. length (fst r)) (generate_signals breakout_obj) = Inr 2"
    by code_simp
  from C8_calls_are_idempotent [of breakout_obj] obtain sigs self1 rs where
    g: "generate_signals breakout_obj = Inr (sigs, self1)"
      "generate_signals self1 = Inr (sigs, self1)"
      "calculate_returns self1 = Inr (rs, self1)" by blast
  from n g(1) have "length sigs = 2" by simp
  with g show ?thesis by blast
qed

lemma returns_body_long:
  assumes "n < length sigs" "signal_type (sigs ! n) = ''LONG''"
    "length (returns st) = length data"
  shows "\<exists>st'. returns_body data sigs n st = Inr st' \<and>
           length (returns st') = length data \<and>
           (\<forall>j<length data. returns st' ! j =
              (if covers sigs n (date (data ! j))
               then (fst (returns st ! j), position_return (sigs ! n) (data ! j))
               else returns st ! j))"
proof -
  let ?mask = "map (\<lambda>b. covers sigs n (date b)) data"
  let ?st1 = "st\<lparr>position := 1, r_entry_price := price (sigs ! n),
                  entry_index := Some (timestamp (sigs ! n))\<rparr>"
  let ?upd = "map (\<lambda>(tv, m, b).
                 if m then (fst tv, fdiv (close b - price (sigs ! n)) (price (sigs ! n)))
                 else tv) (zip (returns st) (zip ?mask data))"
  have mask: "(if (if n + 1 < length sigs then n + 1 else length sigs) < length sigs
               then map (\<lambda>b. date b > timestamp (sigs ! n) \<and>
                        date b \<le> timestamp (sigs ! (if n + 1 < length sigs then n + 1 else length sigs))) data
               else map (\<lambda>b. date b > timestamp (sigs ! n)) data) = ?mask"
    by (auto simp: covers_def)
  have body: "returns_body data sigs n st =
      (if list_ex id ?mask then Inr (?st1\<lparr>returns := ?upd, position := 0\<rparr>) else Inr ?st1)"
    unfolding returns_body_def Let_def using assms(2) mask by (simp cong: if_cong)
  show ?thesis
  proof (cases "list_ex id ?mask")
    case True
    have "\<forall>j<length data. ?upd ! j =
              (if covers sigs n (date (data ! j))
               then (fst (returns st ! j), position_return (sigs ! n) (data ! j))
               else returns st ! j)"
      using assms(3) by (simp add: position_return_def)
    moreover have "length ?upd = length data" using assms(3) by simp
    ultimately show ?thesis using body True by simp
  next
    case False
    then have "\<forall>j<length data. \<not> covers sigs n (date (data ! j))"
      by (auto simp: list_ex_iff)
    then show ?thesis using body False assms(3) by simp
  qed
qed

lemma returns_loop_written:
  assumes "\<forall>sig\<in>set sigs. signal_type sig = ''LONG''" "n \<le> length sigs"
  shows "\<exists>st. for_range (returns_body data sigs) [0..<n]
               \<lparr>returns = map (\<lambda>b. (date b, Some 0)) data,
                position = 0, r_entry_price = 0, entry_index = None\<rparr> = Inr st \<and>
           length (returns st) = length data \<and>
           (\<forall>j<length data. returns st ! j = (date (data ! j), written data sigs n j))"
  using assms(2)
proof (induction n)
  case 0
  then show ?case by simp
next
  case (Suc n)
  then obtain st where st:
    "for_range (returns_body data sigs) [0..<n]
               \<lparr>returns = map (\<lambda>b. (date b, Some 0)) data,
                position = 0, r_entry_price = 0, entry_index = None\<rparr> = Inr st"
    "length (returns st) = length data"
    "\<forall>j<length data. returns st ! j = (date (data ! j), written data sigs n j)"
    by auto
  have n: "n < length sigs" using Suc.prems by simp
  then have "signal_type (sigs ! n) = ''LONG''" using assms(1) by simp
  from returns_body_long [OF n this st(2)] obtain st' where st':
    "returns_body data sigs n st = Inr st'" "length (returns st') = length data"
    "\<forall>j<length data. returns st' ! j =
              (if covers sigs n (date (data ! j))
               then (fst (returns st ! j), position_return (sigs ! n) (data ! j))
               else returns st ! j)"
    by blast
  have "for_range (returns_body data sigs) [0..<Suc n]
               \<lparr>returns = map (\<lambda>b. (date b, Some 0)) data,
                position = 0, r_entry_price = 0, entry_index = None\<rparr> = Inr st'"
    using st(1) st'(1) by (simp add: for_range_append)
  moreover have "\<forall>j<length data. returns st' ! j = (date (data ! j), written data sigs (Suc n) j)"
    using st(3) st'(3) by simp
  ultimately show ?case using st'(2) by blast
qed

lemma written_covered:
  assumes "sorted (map timestamp sigs)" "covers sigs k (date (data ! j))" "k < n" "n \<le> length sigs"
  shows "written data sigs n j = position_return (sigs ! k) (data ! j)"
  using assms(3,4)
proof (induction n)
  case 0
  then show ?case by simp
next
  case (Suc n)
  show ?case
  proof (cases "k = n")
    case True
    with assms(2) show ?thesis by simp
  next
    case False
    with Suc.prems have kn: "k < n" "n < length sigs" by simp_all
    then have "Suc k < length sigs" "Suc k \<le> n" by simp_all
    with assms(2) have "date (data ! j) \<le> timestamp (sigs ! Suc k)" by (simp add: covers_def)
    also have "\<dots> \<le> timestamp (sigs ! n)"
      using assms(1) \<open>Suc k \<le> n\<close> kn(2) by (simp add: sorted_iff_nth_mono)
    finally have "\<not> covers sigs n (date (data ! j))" by (simp add: covers_def)
    with Suc.IH kn show ?thesis by simp
  qed
qed

lemma written_uncovered:
  assumes "\<forall>k<n. \<not> covers sigs k (date (data ! j))"
  shows "written data sigs n j = Some 0"
  using assms by (induction n) simp_all

lemma signal_times_sorted:
  assumes "sorted_wrt (<) (map date data)" "scan_upto s data (length data) = Inr st"
  shows "sorted (map timestamp (signals st))"
proof -
  let ?bars = "filter (\<lambda>i. emitted_at s data i \<noteq> []) [warmup s..<length data]"
  have "sorted_wrt (<) ?bars" by (simp add: sorted_wrt_filter)
  moreover have "\<And>x y. x \<in> set ?bars \<Longrightarrow> y \<in> set ?bars \<Longrightarrow> x < y \<Longrightarrow>
      date (data ! x) \<le> date (data ! y)"
  proof -
    fix x y assume "x \<in> set ?bars" "y \<in> set ?bars" "x < y"
    then have "x < y" "y < length (map date data)" by simp_all
    with assms(1) have "map date data ! x < map date data ! y"
      by (rule sorted_wrt_nth_less)
    then show "date (data ! x) \<le> date (data ! y)"
      using \<open>x < y\<close> \<open>y < length (map date data)\<close> by simp
  qed
  ultimately have "sorted_wrt (\<lambda>x y. date (data ! x) \<le> date (data ! y)) ?bars"
    by (rule sorted_wrt_mono_rel [rotated])
  then have "sorted (map (\<lambda>i. date (data ! i)) ?bars)"
    by (simp add: sorted_wrt_map)
  with signal_dates_upto [OF assms(2)] show ?thesis by simp
qed

text \<open>C1: for every strategy and every bar series with strictly ascending timestamps,
  \<open>calculate_returns\<close> on the object that \<open>generate_signals\<close> leaves returns a series with
  the index of the bar series. A bar in the coverage range of a signal, strictly after its
  timestamp and up to and including the timestamp of the next signal or the end of the
  series, holds the simple return of its close against the price of that signal; a bar in no
  range holds zero.\<close>

theorem C1_return_series:
  assumes "sorted_wrt (<) (map date (self_data self))"
  shows "\<exists>sigs self' rs.
           generate_signals self = Inr (sigs, self') \<and>
           calculate_returns self' = Inr (rs, self') \<and>
           map fst rs = map date (self_data self) \<and>
           (\<forall>j<length (self_data self). \<forall>k<length sigs.
              covers sigs k (date (self_data self ! j)) \<longrightarrow>
              snd (rs ! j) = position_return (sigs ! k) (self_data self ! j)) \<and>
           (\<forall>j<length (self_data self).
              (\<forall>k<length sigs. \<not> covers sigs k (date (self_data self ! j))) \<longrightarrow>
              snd (rs ! j) = Some 0)"
proof -
  let ?d = "self_data self"
  obtain st where st: "scan_upto (cls self) ?d (length ?d) = Inr st"
    "generate_signals self = Inr (signals st, self\<lparr>self_signals := signals st\<rparr>)"
    using generate_signals_result by blast
  let ?sigs = "signals st"
  let ?self' = "self\<lparr>self_signals := ?sigs\<rparr>"
  have long: "\<forall>sig\<in>set ?sigs. signal_type sig = ''LONG''"
    using all_long [OF st(1)] by blast
  have srt: "sorted (map timestamp ?sigs)"
    using signal_times_sorted [OF assms st(1)] .
  from returns_loop_written [OF long, of "length ?sigs" ?d] obtain rst where rst:
    "for_range (returns_body ?d ?sigs) [0..<length ?sigs]
               \<lparr>returns = map (\<lambda>b. (date b, Some 0)) ?d,
                position = 0, r_entry_price = 0, entry_index = None\<rparr> = Inr rst"
    "length (returns rst) = length ?d"
    "\<forall>j<length ?d. returns rst ! j = (date (?d ! j), written ?d ?sigs (length ?sigs) j)"
    by auto
  let ?rs = "returns rst"
  have c: "calculate_returns ?self' = Inr (?rs, ?self')"
    using rst(1) by (simp add: calculate_returns_def)
  have i: "map fst ?rs = map date ?d"
    using rst(2,3) by (simp add: list_eq_iff_nth_eq)
  have cov: "\<forall>j<length ?d. \<forall>k<length ?sigs.
              covers ?sigs k (date (?d ! j)) \<longrightarrow>
              snd (?rs ! j) = position_return (?sigs ! k) (?d ! j)"
    using rst(3) written_covered [OF srt, of _ ?d _ "length ?sigs"] by simp
  have unc: "\<forall>j<length ?d.
              (\<forall>k<length ?sigs. \<not> covers ?sigs k (date (?d ! j))) \<longrightarrow>
              snd (?rs ! j) = Some 0"
    using rst(3) written_uncovered [of "length ?sigs" ?sigs ?d] by simp
  from st(2) c i cov unc show ?thesis by blast
qed

theorem C1_witness:
  "sorted_wrt (<) (map date (self_data breakout_obj)) \<and>
   (\<exists>sigs self' rs.
      generate_signals breakout_obj = Inr (sigs, self') \<and>
      calculate_returns self' = Inr (rs, self') \<and>
      map fst rs = map date (self_data breakout_obj) \<and>
      covers sigs 0 (date (self_data breakout_obj ! 22)) \<and>
      covers sigs 0 (date (self_data breakout_obj ! 23)) \<and>
      covers sigs 1 (date (self_data breakout_obj ! 24)) \<and>
      snd (rs ! 22) = position_return (sigs ! 0) (self_data breakout_obj ! 22) \<and>
      snd (rs ! 23) = position_return (sigs ! 0) (self_data breakout_obj ! 23) \<and>
      snd (rs ! 24) = position_return (sigs ! 1) (self_data breakout_obj ! 24) \<and>
      map snd rs =
        replicate 22 (Some 0) @ [Some (- (2 / 11)), Some (1 / 11), Some (- (1 / 4)),
                                 Some (- (5 / 24))])"
proof -
  have h: "sorted_wrt (<) (map date (self_data breakout_obj))" by code_simp
  have l: "length (self_data breakout_obj) = 26" by code_simp
  have v: "(case generate_signals breakout_obj of
              Inr (sigs, self') \<Rightarrow> map_sum id (map snd \<circ> fst) (calculate_returns self')
            | Inl e \<Rightarrow> Inl e) =
           Inr (replicate 22 (Some 0) @ [Some (- (2 / 11)), Some (1 / 11), Some (- (1 / 4)),
                                         Some (- (5 / 24))])"
    by code_simp
  have c: "(case generate_signals breakout_obj of
              Inr (sigs, self') \<Rightarrow>
                length sigs = 2 \<and>
                covers sigs 0 (date (self_data breakout_obj ! 22)) \<and>
                covers sigs 0 (date (self_data breakout_obj ! 23)) \<and>
                covers sigs 1 (date (self_data breakout_obj ! 24))
            | Inl e \<Rightarrow> False)"
    by code_simp
  from C1_return_series [OF h] obtain sigs self' rs where r:
    "generate_signals breakout_obj = Inr (sigs, self')"
    "calculate_returns self' = Inr (rs, self')"
    "map fst rs = map date (self_data breakout_obj)"
    "\<forall>j<length (self_data breakout_obj). \<forall>k<length sigs.
        covers sigs k (date (self_data breakout_obj ! j)) \<longrightarrow>
        snd (rs ! j) = position_return (sigs ! k) (self_data breakout_obj ! j)"
    by blast
  from c r(1) have c': "length sigs = 2"
    "covers sigs 0 (date (self_data breakout_obj ! 22))"
    "covers sigs 0 (date (self_data breakout_obj ! 23))"
    "covers sigs 1 (date (self_data breakout_obj ! 24))" by simp_all
  from v r(1,2) have v': "map snd rs =
      replicate 22 (Some 0) @ [Some (- (2 / 11)), Some (1 / 11), Some (- (1 / 4)),
                               Some (- (5 / 24))]" by simp
  have "snd (rs ! 22) = position_return (sigs ! 0) (self_data breakout_obj ! 22)"
    "snd (rs ! 23) = position_return (sigs ! 0) (self_data breakout_obj ! 23)"
    "snd (rs ! 24) = position_return (sigs ! 1) (self_data breakout_obj ! 24)"
    using r(4) c' l by simp_all
  with h r(1,2,3) c' v' show ?thesis by blast
qed







lemma acc_row:
  "acc_frame atr atr_ma ! 200 =
     bar0\<lparr>date := 200 * 86400, high := 111, low := 99, close := 110,
          volume := 1000, SMA_20 := Some 100, SMA_50 := Some 90, SMA_200 := Some 80,
          RSI := Some 50, ATR := Some atr, ATR_MA := Some atr_ma, MACD := Some 2,
          MACD_Signal := Some 1, MACD_Hist := Some 1, Higher_High := True,
          Lower_Low := False, Volume_Ratio := Some 2, ROC_5 := Some 1,
          ROC_20 := Some 1\<rparr>"
  by (simp add: acc_frame_def)

lemma dbl_values:
  "dbl 1.3 < 2" "dbl (100 * dbl 1.01) < 110"
  "dbl (10 * dbl 1.1) = 11" "dbl (10 * dbl 0.7) = 7"
  "55 < dbl (50 * dbl 1.1)" "dbl (50 * dbl 0.7) < 55"
  by code_simp+

lemma acc_row_other: "ACC_other_entry_conditions (acc_frame atr atr_ma ! 200)"
  using dbl_values
  by (simp add: acc_row ACC_other_entry_conditions_def fgt_def flt_def fmul_def)

lemma acc_flat_at_warmup: "\<not> open_at ACCStrategy data 200"
  by (simp add: open_at_def scan_upto_warmup init_state_def)

lemma ACC_flat_entry:
  assumes "\<not> position_open a" "ACC_other_entry_conditions (data ! i)"
    "ACC_body data i a = Inr b"
  shows "(signals b \<noteq> signals a) = ATR_between_products (data ! i)"
  using assms
  by (auto simp: ACC_body_def ACC_other_entry_conditions_def ATR_between_products_def Let_def
        flt_def fgt_def fmul_def split: option.splits if_splits)

text \<open>C7, amended: strategy A at a bar \<open>i\<close> from the warm-up index on, reached with no open
  position and with every entry condition other than the volatility check true. The loop
  appends a signal at the bar exactly when ATR is strictly above the double-precision product
  of ATR_MA and 0.7 and strictly below the double-precision product of ATR_MA and 1.1. The
  comparisons are strict and the bounds are the rounded products: no entry fires when ATR
  equals a computed product.\<close>

theorem C7_entry_iff_ATR_between_products:
  assumes "200 \<le> i" "\<not> open_at ACCStrategy data i" "ACC_other_entry_conditions (data ! i)"
  shows "(emitted_at ACCStrategy data i \<noteq> []) = ATR_between_products (data ! i)"
proof -
  have w: "warmup ACCStrategy \<le> i" using assms(1) by simp
  obtain a b where ab: "scan_upto ACCStrategy data i = Inr a"
    "scan_upto ACCStrategy data (Suc i) = Inr b"
    "scan_body ACCStrategy data i a = Inr b"
    using scan_step [OF w] by metis
  have flat: "\<not> position_open a" using assms(2) ab(1) by (simp add: open_at_def)
  from bar_effect [OF w ab(1,2)]
  have "(emitted_at ACCStrategy data i \<noteq> []) = (signals b \<noteq> signals a)" by auto
  also have "\<dots> = ATR_between_products (data ! i)"
    using ACC_flat_entry [OF flat assms(3)] ab(3) by simp
  finally show ?thesis .
qed

theorem C7_witness:
  "\<not> open_at ACCStrategy (acc_frame 10 10) 200 \<and>
   ACC_other_entry_conditions (acc_frame 10 10 ! 200) \<and>
   ATR_between_products (acc_frame 10 10 ! 200) \<and>
   emitted_at ACCStrategy (acc_frame 10 10) 200 \<noteq> [] \<and>
   \<not> open_at ACCStrategy (acc_frame 55 50) 200 \<and>
   ACC_other_entry_conditions (acc_frame 55 50 ! 200) \<and>
   55 < dbl (50 * dbl 1.1) \<and>
   ATR_between_products (acc_frame 55 50 ! 200) \<and>
   emitted_at ACCStrategy (acc_frame 55 50) 200 \<noteq> [] \<and>
   \<not> ATR_between_products (acc_frame 11 10 ! 200) \<and>
   emitted_at ACCStrategy (acc_frame 11 10) 200 = []"
proof -
  have b: "ATR_between_products (acc_frame 10 10 ! 200)"
    "ATR_between_products (acc_frame 55 50 ! 200)"
    "\<not> ATR_between_products (acc_frame 11 10 ! 200)"
    using dbl_values by (simp_all add: acc_row ATR_between_products_def)
  have "(200::nat) \<le> 200" by simp
  from C7_entry_iff_ATR_between_products [OF this acc_flat_at_warmup acc_row_other, of 10 10]
    C7_entry_iff_ATR_between_products [OF this acc_flat_at_warmup acc_row_other, of 55 50]
    C7_entry_iff_ATR_between_products [OF this acc_flat_at_warmup acc_row_other, of 11 10]
    b acc_flat_at_warmup acc_row_other dbl_values(5)
  show ?thesis by blast
qed

lemma acc_no_entry:
  assumes "\<not> ATR_between_products (acc_frame atr atr_ma ! 200)"
  shows "emitted_at ACCStrategy (acc_frame atr atr_ma) 200 = []"
proof -
  have w: "warmup ACCStrategy \<le> 200" by simp
  obtain a b where ab: "scan_upto ACCStrategy (acc_frame atr atr_ma) 200 = Inr a"
    "scan_upto ACCStrategy (acc_frame atr atr_ma) (Suc 200) = Inr b"
    "scan_body ACCStrategy (acc_frame atr atr_ma) 200 a = Inr b"
    using scan_step [OF w] by metis
  have flat: "\<not> position_open a"
    using acc_flat_at_warmup [of "acc_frame atr atr_ma"] ab(1) by (simp add: open_at_def)
  from ACC_flat_entry [OF flat acc_row_other, of atr atr_ma b] ab(3) assms
  have "signals b = signals a" by simp
  with ab(1,2) show ?thesis
    by (simp add: emitted_at_def)
qed

theorem C7_counterexample:
  "\<not> open_at ACCStrategy (acc_frame 11 10) 200 \<and>
   ACC_other_entry_conditions (acc_frame 11 10 ! 200) \<and>
   ATR (acc_frame 11 10 ! 200) = Some 11 \<and> ATR_MA (acc_frame 11 10 ! 200) = Some 10 \<and>
   dbl (10 * dbl 1.1) = 11 \<and>
   ATR_in_closed_band (acc_frame 11 10 ! 200) \<and>
   emitted_at ACCStrategy (acc_frame 11 10) 200 = [] \<and>
   \<not> open_at ACCStrategy (acc_frame 7 10) 200 \<and>
   ACC_other_entry_conditions (acc_frame 7 10 ! 200) \<and>
   ATR (acc_frame 7 10 ! 200) = Some 7 \<and> ATR_MA (acc_frame 7 10 ! 200) = Some 10 \<and>
   dbl (10 * dbl 0.7) = 7 \<and>
   ATR_in_closed_band (acc_frame 7 10 ! 200) \<and>
   emitted_at ACCStrategy (acc_frame 7 10) 200 = []"
proof -
  have "\<not> ATR_between_products (acc_frame 11 10 ! 200)"
    "\<not> ATR_between_products (acc_frame 7 10 ! 200)"
    using dbl_values by (simp_all add: acc_row ATR_between_products_def)
  then have "emitted_at ACCStrategy (acc_frame 11 10) 200 = []"
    "emitted_at ACCStrategy (acc_frame 7 10) 200 = []"
    by (simp_all add: acc_no_entry)
  moreover have "ATR_in_closed_band (acc_frame 11 10 ! 200)"
    "ATR_in_closed_band (acc_frame 7 10 ! 200)"
    by (simp_all add: acc_row ATR_in_closed_band_def)
  moreover have "ATR (acc_frame 11 10 ! 200) = Some 11" "ATR_MA (acc_frame 11 10 ! 200) = Some 10"
    "ATR (acc_frame 7 10 ! 200) = Some 7" "ATR_MA (acc_frame 7 10 ! 200) = Some 10"
    by (simp_all add: acc_row)
  ultimately show ?thesis
    using acc_flat_at_warmup acc_row_other dbl_values(3,4) by blast
qed

end
